theory Spec2Isabelle
  imports Complex_Main
begin

section \<open>The training pipeline of \<open>src/code/main.py\<close>\<close>

text \<open>
  The module trains eight real parameters of a qutrit encoder by gradient descent on a
  loss made of a cloning term and an occupation term. Its functions \<open>compute_loss\<close>,
  \<open>compute_loss_batch\<close>, \<open>total_loss_for_grad\<close>, \<open>update_step\<close> and \<open>train\<close> are
  embedded below, in the order of the source.

  Numbers. The source computes in floating point; the embedding computes in \<open>real\<close>, so
  it follows the control flow and the algebra of the code and not the rounding of its
  sums, products, roots and quotients. One comparison is modelled as the code makes it,
  in single precision: the selector of line 74, whose threshold the claims are about.
  The norm of line 55 is the exact norm: where the single precision norm of the code
  underflows to 0 or overflows, the code leaves the model. A NaN has no counterpart in
  \<open>real\<close>: the one place where the code makes one from well-formed real input, the
  mean of an empty batch, is a failure value of the model (\<open>NotANumber\<close>), and the model
  stops there.
\<close>

subsection \<open>Data\<close>

text \<open>
  A qutrit state is a complex array of shape \<open>(3,)\<close>: \<open>QutritDataset\<close> builds each one
  from three real and three imaginary columns (line 27). It is a triple, component 0
  first; the slice \<open>[1:3]\<close> of it is a pair. Density matrices are only handed from one
  imported function to the next; they are lists of rows. The weights are a dictionary
  from strings to floats, and a batch is a sequence of states.
\<close>

type_synonym qutrit = "complex \<times> complex \<times> complex"
type_synonym qubit = "complex \<times> complex"
type_synonym cmat = "complex list list"
type_synonym weights = "string \<rightharpoonup> real"
type_synonym batch = "qutrit list"
type_synonym losses = "real \<times> real \<times> real \<times> real"

datatype error = ZeroDivisionError | NotANumber

text \<open>
  What \<open>main.py\<close> imports and does not define (lines 2 and 9 to 13): the encoder, the
  cloning machine, the embedding, the decoder and the fidelity of the sibling modules,
  and \<open>jax.grad\<close>. They are parameters of the model. The fidelity is real: both
  branches of the selector of line 74 are of one type, and the first is a real number.
  \<open>jax.grad\<close> returns a tree of the shape of its argument, here a dictionary with the
  keys of the weights; \<open>jax_grad f w k\<close> is its entry at a key \<open>k\<close> of \<open>w\<close>. It raises
  nothing, also where the loss is NaN.
\<close>

record externals =
  encode_qutrit :: "qutrit \<Rightarrow> weights \<Rightarrow> qutrit \<times> cmat"
  buzek_hillery_clone :: "qubit \<Rightarrow> cmat \<times> cmat \<times> cmat"
  embed_rho :: "cmat \<Rightarrow> cmat"
  decode_qubit_to_qutrit :: "cmat \<Rightarrow> cmat \<Rightarrow> cmat"
  fidelity :: "qutrit \<Rightarrow> cmat \<Rightarrow> real"
  jax_grad :: "(weights \<Rightarrow> error + real) \<Rightarrow> weights \<Rightarrow> string \<Rightarrow> real"

subsection \<open>\<open>compute_loss\<close> (lines 39 to 79)\<close>

text \<open>Line 51: \<open>jnp.abs(encoded_state[0])**2\<close>.\<close>

definition occupation_loss :: "qutrit \<Rightarrow> real" where
  "occupation_loss encoded_state = (case encoded_state of (z0, z1, z2) \<Rightarrow> (cmod z0)\<^sup>2)"

text \<open>Line 54: \<open>encoded_state[1:3]\<close>.\<close>

definition effective_part :: "qutrit \<Rightarrow> qubit" where
  "effective_part encoded_state = (case encoded_state of (z0, z1, z2) \<Rightarrow> (z1, z2))"

text \<open>
  Line 55: \<open>jnp.linalg.norm\<close> of a vector is its Euclidean norm; here the exact one, not
  the single precision number the code computes.
\<close>

definition linalg_norm :: "qubit \<Rightarrow> real" where
  "linalg_norm v = (case v of (a, b) \<Rightarrow> sqrt ((cmod a)\<^sup>2 + (cmod b)\<^sup>2))"

text \<open>Lines 56 to 59: the selection on \<open>norm_eff > 0\<close>.\<close>

definition effective_psi :: "qutrit \<Rightarrow> qubit" where
  "effective_psi encoded_state =
     (let part = effective_part encoded_state;
          norm_eff = linalg_norm part
      in if norm_eff > 0
         then (case part of (a, b) \<Rightarrow> (a / complex_of_real norm_eff, b / complex_of_real norm_eff))
         else part)"

text \<open>Line 71.\<close>

definition cloning_loss :: "real \<Rightarrow> real \<Rightarrow> real" where
  "cloning_loss F_A F_B = 1 - F_A - F_B + (F_A - F_B)\<^sup>2"

text \<open>
  Lines 74 to 77: the selection on \<open>jnp.abs(beta - 1.0) < 1e-6\<close>. \<open>beta\<close> is a Python
  float; \<open>jnp.abs\<close> makes a single precision number of \<open>beta - 1.0\<close>, and the comparison
  makes one of \<open>1e-6\<close>: both are rounded to the nearest number of 24 significant bits,
  a tie to the one whose last bit is 0. \<open>float32\<close> is that rounding, with the
  subnormal numbers below \<open>2 powr (- 126)\<close>. It has no infinity: a number too large for
  single precision is rounded to a large real, and fails the comparison of line 74 as
  the infinity of the code does. The double precision roundings before it, of
  \<open>beta - 1.0\<close> and of the literal \<open>1e-6\<close>, do not change the outcome: the difference is
  exact for \<open>beta\<close> between 0.5 and 2, far from the threshold elsewhere, and the double
  nearest to \<open>1e-6\<close> has the same nearest single.
\<close>

definition round_half_even :: "real \<Rightarrow> int" where
  "round_half_even r =
     (let f = \<lfloor>r\<rfloor>
      in if r - of_int f < 1 / 2 then f
         else if 1 / 2 < r - of_int f then f + 1
         else if even f then f else f + 1)"

definition float32 :: "real \<Rightarrow> real" where
  "float32 x =
     (if x = 0 then 0
      else let e = max \<lfloor>log 2 \<bar>x\<bar>\<rfloor> (- 126);
               ulp = 2 powr (of_int e - 23)
           in of_int (round_half_even (x / ulp)) * ulp)"

definition total_loss :: "real \<Rightarrow> real \<Rightarrow> real \<Rightarrow> real" where
  "total_loss beta occupation cloning =
     (if float32 \<bar>beta - 1\<bar> < float32 (1 / 1000000) then occupation
      else cloning + beta * occupation)"

definition compute_loss :: "externals \<Rightarrow> weights \<Rightarrow> qutrit \<Rightarrow> real \<Rightarrow> losses" where
  "compute_loss E weights qutrit_state beta =
     (case encode_qutrit E qutrit_state weights of (encoded_state, encoder_unitary) \<Rightarrow>
      (case buzek_hillery_clone E (effective_psi encoded_state) of (rho_AB, rho_A, rho_B) \<Rightarrow>
       let rho_A_embed = embed_rho E rho_A;
           rho_B_embed = embed_rho E rho_B;
           decoded_rho_A = decode_qubit_to_qutrit E rho_A_embed encoder_unitary;
           decoded_rho_B = decode_qubit_to_qutrit E rho_B_embed encoder_unitary;
           F_A = fidelity E qutrit_state decoded_rho_A;
           F_B = fidelity E qutrit_state decoded_rho_B
       in (total_loss beta (occupation_loss encoded_state) (cloning_loss F_A F_B),
           cloning_loss F_A F_B, F_A, F_B)))"

subsection \<open>\<open>compute_loss_batch\<close> and \<open>total_loss_for_grad\<close> (lines 81 to 93)\<close>

text \<open>
  \<open>jax.vmap\<close> of a function that returns four scalars returns four arrays, one entry
  for each state of the batch, in the order of the batch.
\<close>

definition vmap :: "('a \<Rightarrow> losses) \<Rightarrow> 'a list \<Rightarrow> real list \<times> real list \<times> real list \<times> real list" where
  "vmap f xs =
     (map (\<lambda>x. fst (f x)) xs,
      map (\<lambda>x. fst (snd (f x))) xs,
      map (\<lambda>x. fst (snd (snd (f x)))) xs,
      map (\<lambda>x. snd (snd (snd (f x)))) xs)"

text \<open>\<open>jnp.mean\<close>: the sum over the number of entries, NaN on an empty array.\<close>

definition mean :: "real list \<Rightarrow> error + real" where
  "mean xs = (if xs = [] then Inl NotANumber else Inr (sum_list xs / real (length xs)))"

definition compute_loss_batch :: "externals \<Rightarrow> weights \<Rightarrow> batch \<Rightarrow> real \<Rightarrow> error + losses" where
  "compute_loss_batch E weights batch_qutrit_states beta =
     (case vmap (\<lambda>state. compute_loss E weights state beta) batch_qutrit_states of
        (losses, cloning_losses, F_A, F_B) \<Rightarrow>
      (case mean losses of Inl e \<Rightarrow> Inl e | Inr m_loss \<Rightarrow>
       (case mean cloning_losses of Inl e \<Rightarrow> Inl e | Inr m_cloning \<Rightarrow>
        (case mean F_A of Inl e \<Rightarrow> Inl e | Inr m_FA \<Rightarrow>
         (case mean F_B of Inl e \<Rightarrow> Inl e | Inr m_FB \<Rightarrow>
            Inr (m_loss, m_cloning, m_FA, m_FB))))))"

definition total_loss_for_grad :: "externals \<Rightarrow> weights \<Rightarrow> batch \<Rightarrow> real \<Rightarrow> error + real" where
  "total_loss_for_grad E weights batch_qutrit_states beta =
     (case compute_loss_batch E weights batch_qutrit_states beta of
        Inl e \<Rightarrow> Inl e
      | Inr (loss, cloning, F_A, F_B) \<Rightarrow> Inr loss)"

subsection \<open>\<open>train\<close> (lines 95 to 143)\<close>

text \<open>
  Line 97: the keys are \<open>str(i)\<close> for \<open>i\<close> in \<open>range(1, 9)\<close>, the value at \<open>str(i)\<close> is
  the draw of \<open>np.random.randn()\<close> made for \<open>i\<close>. The draws are a parameter \<open>randn\<close>.
\<close>

fun str :: "nat \<Rightarrow> string" where
  "str n = (if n < 10 then [''0123456789'' ! n] else str (n div 10) @ [''0123456789'' ! (n mod 10)])"

declare str.simps [simp del]

definition init_weights :: "(nat \<Rightarrow> real) \<Rightarrow> weights" where
  "init_weights randn = map_of (map (\<lambda>i. (str i, randn i)) [1..<9])"

text \<open>
  Line 103 and lines 106 to 108. \<open>grad_fn\<close> is \<open>jax.grad\<close> of \<open>total_loss_for_grad\<close>
  in its first argument. \<open>jax.tree_map\<close> on dictionaries applies the function at every
  key of the first one. The step raises nothing; it returns as the other steps of the
  loop do.
\<close>

definition grad_fn :: "externals \<Rightarrow> weights \<Rightarrow> batch \<Rightarrow> real \<Rightarrow> string \<Rightarrow> real" where
  "grad_fn E weights batch beta =
     jax_grad E (\<lambda>w. total_loss_for_grad E w batch beta) weights"

definition tree_map :: "(real \<Rightarrow> real \<Rightarrow> real) \<Rightarrow> weights \<Rightarrow> (string \<Rightarrow> real) \<Rightarrow> weights" where
  "tree_map f weights grads =
     (\<lambda>k. case weights k of None \<Rightarrow> None | Some w \<Rightarrow> Some (f w (grads k)))"

definition update_step :: "externals \<Rightarrow> real \<Rightarrow> weights \<Rightarrow> batch \<Rightarrow> real \<Rightarrow> error + weights" where
  "update_step E learning_rate weights batch beta =
     (let grads = grad_fn E weights batch beta
      in Inr (tree_map (\<lambda>w g. w - learning_rate * g) weights grads))"

text \<open>
  The variables of one epoch (lines 112 to 116, and \<open>weights\<close>) and those that live
  across epochs (lines 97 to 101).
\<close>

record epoch_state =
  ws :: weights
  epoch_loss :: real
  num_batches :: nat
  epoch_cloning_loss :: real
  total_FA :: real
  total_FB :: real

record train_state =
  weights_of :: weights
  loss_history :: "real list"
  cloning_loss_history :: "real list"
  FA_history :: "real list"
  FB_history :: "real list"

text \<open>A \<open>for\<close> loop over a sequence, left at the first failure.\<close>

fun for_loop :: "'a list \<Rightarrow> ('a \<Rightarrow> 's \<Rightarrow> error + 's) \<Rightarrow> 's \<Rightarrow> error + 's" where
  "for_loop [] body s = Inr s"
| "for_loop (x # xs) body s =
     (case body x s of Inl e \<Rightarrow> Inl e | Inr s' \<Rightarrow> for_loop xs body s')"

text \<open>Lines 118 to 128, the body of the loop over the batches.\<close>

definition batch_body :: "externals \<Rightarrow> real \<Rightarrow> real \<Rightarrow> batch \<Rightarrow> epoch_state \<Rightarrow> error + epoch_state" where
  "batch_body E learning_rate beta batch s =
     (case compute_loss_batch E (ws s) batch beta of
        Inl e \<Rightarrow> Inl e
      | Inr (batch_loss, cloning, F_A, F_B) \<Rightarrow>
        (case update_step E learning_rate (ws s) batch beta of
           Inl e \<Rightarrow> Inl e
         | Inr weights' \<Rightarrow>
             Inr \<lparr>ws = weights',
                  epoch_loss = epoch_loss s + batch_loss,
                  num_batches = num_batches s + 1,
                  epoch_cloning_loss = epoch_cloning_loss s + cloning,
                  total_FA = total_FA s + F_A,
                  total_FB = total_FB s + F_B\<rparr>))"

text \<open>Lines 112 to 116: the accumulators at the start of an epoch.\<close>

definition epoch_start :: "weights \<Rightarrow> epoch_state" where
  "epoch_start weights =
     \<lparr>ws = weights, epoch_loss = 0, num_batches = 0, epoch_cloning_loss = 0,
      total_FA = 0, total_FB = 0\<rparr>"

text \<open>
  Lines 112 to 140, the body of the loop over the epochs. The dataloader is iterated
  anew in every epoch; \<open>dataloader epoch\<close> is the sequence of batches it yields in that
  epoch. The divisions of lines 129 to 132 raise when \<open>num_batches\<close> is 0. The prints
  change nothing.
\<close>

definition epoch_body :: "externals \<Rightarrow> (nat \<Rightarrow> batch list) \<Rightarrow> real \<Rightarrow> real \<Rightarrow> nat \<Rightarrow> train_state \<Rightarrow> error + train_state" where
  "epoch_body E dataloader learning_rate beta epoch t =
     (case for_loop (dataloader epoch) (batch_body E learning_rate beta) (epoch_start (weights_of t)) of
        Inl e \<Rightarrow> Inl e
      | Inr s \<Rightarrow>
          if num_batches s = 0 then Inl ZeroDivisionError
          else Inr \<lparr>weights_of = ws s,
                    loss_history = loss_history t @ [epoch_loss s / real (num_batches s)],
                    cloning_loss_history = cloning_loss_history t @ [epoch_cloning_loss s / real (num_batches s)],
                    FA_history = FA_history t @ [total_FA s / real (num_batches s)],
                    FB_history = FB_history t @ [total_FB s / real (num_batches s)]\<rparr>)"

definition train_start :: "(nat \<Rightarrow> real) \<Rightarrow> train_state" where
  "train_start randn =
     \<lparr>weights_of = init_weights randn, loss_history = [], cloning_loss_history = [],
      FA_history = [], FB_history = []\<rparr>"

definition train :: "externals \<Rightarrow> (nat \<Rightarrow> real) \<Rightarrow> (nat \<Rightarrow> batch list) \<Rightarrow> nat \<Rightarrow> real \<Rightarrow> real
    \<Rightarrow> error + (weights \<times> real list \<times> real list \<times> real list \<times> real list)" where
  "train E randn dataloader num_epochs learning_rate beta =
     (case for_loop [0..<num_epochs] (epoch_body E dataloader learning_rate beta) (train_start randn) of
        Inl e \<Rightarrow> Inl e
      | Inr t \<Rightarrow> Inr (weights_of t, loss_history t, cloning_loss_history t, FA_history t, FB_history t))"

text \<open>
  The labels of the eight parameters, \<open>1\<close> to \<open>8\<close> as strings, as the claims about the
  weights name them.
\<close>

definition weight_keys :: "string set" where
  "weight_keys = {''1'', ''2'', ''3'', ''4''} \<union> {''5'', ''6'', ''7'', ''8''}"

subsection \<open>The metrics of one epoch, as a sequence\<close>


subsection \<open>The gradient of the batch-mean total loss\<close>

text \<open>
  The batch-mean total loss of the claims, written out: the arithmetic mean, over the
  states of the batch, of the total loss of \<open>compute_loss\<close>, as a function of the weights.
\<close>

definition batch_mean_total_loss :: "externals \<Rightarrow> batch \<Rightarrow> real \<Rightarrow> weights \<Rightarrow> real" where
  "batch_mean_total_loss E batch beta weights =
     sum_list (map (\<lambda>state. fst (compute_loss E weights state beta)) batch) / real (length batch)"

text \<open>
  What \<open>jax.grad\<close> promises of one call, on a function \<open>f\<close> at the weights \<open>w\<close>: the
  entry at a key is the derivative of \<open>f\<close> in the value at that key, the other values
  held. It is a hypothesis on the imported operator, never a fact of the model.
\<close>

definition jax_grad_at :: "externals \<Rightarrow> (weights \<Rightarrow> error + real) \<Rightarrow> weights \<Rightarrow> bool" where
  "jax_grad_at E f w \<longleftrightarrow>
     (\<forall>k x. w k = Some x \<longrightarrow>
        ((\<lambda>y. projr (f (w(k \<mapsto> y)))) has_real_derivative jax_grad E f w k) (at x))"

subsection \<open>Concrete inputs\<close>

text \<open>
  An instance of the imported functions, to run the model on: the encoder of the identity
  unitary, a cloning machine, an embedding and a decoder that hand their matrices on, the
  fidelity \<open>5 / 6\<close> of the universal cloning machine for both clones, and the gradient
  0 at every key, which is the gradient of a loss that, as this one, does not depend on
  the weights. With it go the draws that are all 0, a dataloader that yields no batch,
  and one that yields in every epoch one batch of the single state \<open>(0, 1, 0)\<close>.
\<close>

definition sample_externals :: externals where
  "sample_externals =
     \<lparr>encode_qutrit = (\<lambda>state weights. (state, [[1, 0, 0], [0, 1, 0], [0, 0, 1]])),
      buzek_hillery_clone = (\<lambda>psi. ([], [], [])),
      embed_rho = (\<lambda>rho. rho),
      decode_qubit_to_qutrit = (\<lambda>rho U. rho),
      fidelity = (\<lambda>state rho. 5 / 6),
      jax_grad = (\<lambda>f weights k. 0)\<rparr>"

definition zero_randn :: "nat \<Rightarrow> real" where
  "zero_randn i = 0"

definition empty_loader :: "nat \<Rightarrow> batch list" where
  "empty_loader epoch = []"

definition one_batch_loader :: "nat \<Rightarrow> batch list" where
  "one_batch_loader epoch = [[(0, 1, 0)]]"

section \<open>The loss of one state\<close>

subsection \<open>Rounding to single precision\<close>

lemma int_le_half: "real_of_int a \<le> of_int b + 1 / 2 \<longleftrightarrow> a \<le> b"
proof
  assume "real_of_int a \<le> of_int b + 1 / 2"
  then have "real_of_int a < of_int (b + 1)" by simp
  then have "a < b + 1" by (simp only: of_int_less_iff)
  then show "a \<le> b" by simp
next
  assume "a \<le> b"
  then have "real_of_int a \<le> of_int b" by simp
  then show "real_of_int a \<le> of_int b + 1 / 2" by simp
qed

lemma int_half_less: "real_of_int a + 1 / 2 < of_int b \<longleftrightarrow> a < b"
proof
  assume "real_of_int a + 1 / 2 < of_int b"
  then have "real_of_int a < of_int b" by simp
  then show "a < b" by simp
next
  assume "a < b"
  then have "a + 1 \<le> b" by simp
  then have "real_of_int (a + 1) \<le> of_int b" by (simp only: of_int_le_iff)
  then show "real_of_int a + 1 / 2 < of_int b" by simp
qed

lemma round_half_even_le_even:
  assumes "even n"
  shows "round_half_even r \<le> n \<longleftrightarrow> r \<le> of_int n + 1 / 2"
proof -
  define f where "f = \<lfloor>r\<rfloor>"
  have lo: "of_int f \<le> r" and hi: "r < of_int f + 1"
    unfolding f_def by linarith+
  consider (below) "r - of_int f < 1 / 2" | (above) "1 / 2 < r - of_int f"
    | (tie) "r = of_int f + 1 / 2" by linarith
  then show ?thesis
  proof cases
    case below
    then have v: "round_half_even r = f" by (simp add: round_half_even_def f_def)
    show ?thesis
    proof
      assume "round_half_even r \<le> n"
      with v have "real_of_int f \<le> of_int n" by simp
      with below show "r \<le> of_int n + 1 / 2" by linarith
    next
      assume "r \<le> of_int n + 1 / 2"
      with lo have "real_of_int f \<le> of_int n + 1 / 2" by linarith
      then have "f \<le> n" by (simp only: int_le_half)
      with v show "round_half_even r \<le> n" by simp
    qed
  next
    case above
    then have v: "round_half_even r = f + 1" by (simp add: round_half_even_def f_def)
    show ?thesis
    proof
      assume "round_half_even r \<le> n"
      with v have "real_of_int (f + 1) \<le> of_int n" by (simp only: of_int_le_iff)
      with hi show "r \<le> of_int n + 1 / 2" by simp
    next
      assume "r \<le> of_int n + 1 / 2"
      with above have "real_of_int f + 1 / 2 < of_int n + 1 / 2" by linarith
      then have "real_of_int f < of_int n" by simp
      then have "f < n" by simp
      with v show "round_half_even r \<le> n" by simp
    qed
  next
    case tie
    then have d: "r - of_int f = 1 / 2" by simp
    show ?thesis
    proof (cases "even f")
      case True
      with d have v: "round_half_even r = f" by (simp add: round_half_even_def f_def [symmetric])
      from tie have "r \<le> of_int n + 1 / 2 \<longleftrightarrow> real_of_int f \<le> of_int n" by simp
      with v show ?thesis by simp
    next
      case False
      with d have v: "round_half_even r = f + 1" by (simp add: round_half_even_def f_def [symmetric])
      from False assms have "f \<noteq> n" by auto
      then have "f + 1 \<le> n \<longleftrightarrow> f \<le> n" by auto
      moreover from tie have "r \<le> of_int n + 1 / 2 \<longleftrightarrow> real_of_int f \<le> of_int n" by simp
      ultimately show ?thesis using v by simp
    qed
  qed
qed

lemma round_half_even_mono_le: "r \<le> of_int n \<Longrightarrow> round_half_even r \<le> n"
proof -
  assume a: "r \<le> of_int n"
  have f: "\<lfloor>r\<rfloor> \<le> n" using a by (simp add: floor_le_iff)
  show ?thesis
  proof (cases "r - of_int \<lfloor>r\<rfloor> < 1 / 2")
    case True
    then show ?thesis using f by (simp add: round_half_even_def)
  next
    case False
    then have "of_int \<lfloor>r\<rfloor> < r" by linarith
    with a have "real_of_int \<lfloor>r\<rfloor> < of_int n" by linarith
    then have "\<lfloor>r\<rfloor> < n" by simp
    then show ?thesis by (simp add: round_half_even_def Let_def)
  qed
qed

lemma round_half_even_mono_ge: "of_int n \<le> r \<Longrightarrow> n \<le> round_half_even r"
proof -
  assume a: "of_int n \<le> r"
  then have "n \<le> \<lfloor>r\<rfloor>" by (simp add: le_floor_iff)
  then show ?thesis by (simp add: round_half_even_def Let_def)
qed


lemma floor_log2_ge: "0 < x \<Longrightarrow> k \<le> \<lfloor>log 2 x\<rfloor> \<longleftrightarrow> 2 powr of_int k \<le> x"
  by (simp add: le_floor_iff le_log_iff)

lemma floor_log2_less: "0 < x \<Longrightarrow> \<lfloor>log 2 x\<rfloor> < k \<longleftrightarrow> x < 2 powr of_int k"
  by (simp add: floor_less_iff log_less_iff)

lemma floor_log2_eq:
  "0 < x \<Longrightarrow> 2 powr of_int k \<le> x \<Longrightarrow> x < 2 powr of_int (k + 1) \<Longrightarrow> \<lfloor>log 2 x\<rfloor> = k"
  using floor_log2_ge [of x k] floor_log2_less [of x "k + 1"] by linarith

text \<open>In a binade above the subnormal range, rounding is rounding of the scaled number.\<close>

lemma float32_binade:
  assumes "- 126 \<le> k" "2 powr of_int k \<le> x" "x < 2 powr of_int (k + 1)"
  shows "float32 x = of_int (round_half_even (x / 2 powr (of_int k - 23))) * 2 powr (of_int k - 23)"
proof -
  from assms(2) have pos: "0 < x" by (smt (verit) powr_gt_zero)
  from floor_log2_eq [OF pos assms(2,3)] have "\<lfloor>log 2 \<bar>x\<bar>\<rfloor> = k" using pos by simp
  with assms(1) pos show ?thesis by (simp add: float32_def Let_def max_def)
qed

lemma float32_unfold:
  assumes "0 < x"
  shows "float32 x =
           of_int (round_half_even (x / 2 powr (of_int (max \<lfloor>log 2 x\<rfloor> (- 126)) - 23)))
             * 2 powr (of_int (max \<lfloor>log 2 x\<rfloor> (- 126)) - 23)"
  using assms by (simp add: float32_def Let_def)

lemma float32_upper:
  assumes "0 < x" "x < 2 powr of_int k" "- 125 \<le> k"
  shows "float32 x \<le> 2 powr of_int k"
proof -
  define e where "e = max \<lfloor>log 2 x\<rfloor> (- 126)"
  define ulp :: real where "ulp = 2 powr (of_int e - 23)"
  have ulp: "0 < ulp" by (simp add: ulp_def)
  have fl: "float32 x = of_int (round_half_even (x / ulp)) * ulp"
    unfolding ulp_def e_def by (rule float32_unfold [OF assms(1)])
  from assms(1,2) have "\<lfloor>log 2 x\<rfloor> < k" by (simp only: floor_log2_less)
  with assms(3) have ek: "e + 1 \<le> k" unfolding e_def by linarith
  have "\<lfloor>log 2 x\<rfloor> < e + 1" unfolding e_def by linarith
  with assms(1) have "x < 2 powr of_int (e + 1)" by (simp only: floor_log2_less)
  also have scale: "2 powr real_of_int (e + 1) = of_int (2 ^ 24) * ulp"
    by (simp add: ulp_def powr_diff powr_add)
  finally have "x / ulp < of_int (2 ^ 24)" using ulp by (simp only: pos_divide_less_eq)
  then have "x / ulp \<le> of_int (2 ^ 24)" by (rule less_imp_le)
  then have "round_half_even (x / ulp) \<le> 2 ^ 24"
    by (rule round_half_even_mono_le)
  then have "real_of_int (round_half_even (x / ulp)) \<le> of_int (2 ^ 24)"
    by (simp only: of_int_le_iff)
  with ulp have "of_int (round_half_even (x / ulp)) * ulp \<le> of_int (2 ^ 24) * ulp"
    by (simp only: mult_le_cancel_right_pos)
  also note scale [symmetric]
  also have "2 powr of_int (e + 1) \<le> (2::real) powr of_int k" using ek by simp
  finally show ?thesis unfolding fl .
qed

lemma float32_lower:
  assumes "2 powr of_int k \<le> x" "- 126 \<le> k"
  shows "2 powr of_int k \<le> float32 x"
proof -
  have "(0::real) < 2 powr of_int k" by simp
  with assms(1) have pos: "0 < x" by linarith
  define e where "e = max \<lfloor>log 2 x\<rfloor> (- 126)"
  define ulp :: real where "ulp = 2 powr (of_int e - 23)"
  have ulp: "0 < ulp" by (simp add: ulp_def)
  have fl: "float32 x = of_int (round_half_even (x / ulp)) * ulp"
    unfolding ulp_def e_def by (rule float32_unfold [OF pos])
  from pos assms(1) have kl: "k \<le> \<lfloor>log 2 x\<rfloor>" by (simp only: floor_log2_ge)
  with assms(2) have e: "e = \<lfloor>log 2 x\<rfloor>" unfolding e_def by linarith
  from kl e have ke: "k \<le> e" by simp
  have "e \<le> \<lfloor>log 2 x\<rfloor>" by (simp only: e)
  with pos have "2 powr of_int e \<le> x" by (simp only: floor_log2_ge)
  moreover have scale: "2 powr real_of_int e = of_int (2 ^ 23) * ulp"
    by (simp add: ulp_def powr_diff)
  ultimately have "of_int (2 ^ 23) * ulp \<le> x" by simp
  with ulp have "of_int (2 ^ 23) \<le> x / ulp" by (simp only: pos_le_divide_eq)
  then have "2 ^ 23 \<le> round_half_even (x / ulp)"
    by (rule round_half_even_mono_ge)
  then have "real_of_int (2 ^ 23) \<le> of_int (round_half_even (x / ulp))"
    by (simp only: of_int_le_iff)
  with ulp have "of_int (2 ^ 23) * ulp \<le> of_int (round_half_even (x / ulp)) * ulp"
    by (simp only: mult_le_cancel_right_pos)
  moreover have "2 powr real_of_int k \<le> (2::real) powr of_int e" using ke by simp
  ultimately show ?thesis unfolding fl scale [symmetric] by linarith
qed


lemma powr_m43: "(2::real) powr (real_of_int (- 20) - 23) = 1 / 8796093022208"
  by (simp add: powr_neg_numeral)

lemma powr_m20: "(2::real) powr real_of_int (- 20) = 1 / 1048576"
  by (simp add: powr_neg_numeral)

lemma powr_m19: "(2::real) powr real_of_int (- 20 + 1) = 1 / 524288"
  by (simp add: powr_neg_numeral)

lemma float32_micro: "float32 (1 / 1000000) = 8796093 / 8796093022208"
proof -
  have fl: "float32 (1 / 1000000) =
      of_int (round_half_even ((1 / 1000000) / 2 powr (of_int (- 20) - 23))) * 2 powr (of_int (- 20) - 23)"
    by (rule float32_binade) (simp_all add: powr_neg_numeral)
  have r: "round_half_even ((1 / 1000000) / (1 / 8796093022208)) = 8796093"
    by (simp add: round_half_even_def)
  show ?thesis unfolding fl powr_m43 r by simp
qed

lemma float32_zero: "float32 0 = 0"
  by (simp add: float32_def)

lemma float32_below_micro:
  assumes "0 \<le> x"
  shows "float32 x < float32 (1 / 1000000) \<longleftrightarrow> x \<le> 17592185 / 17592186044416"
proof -
  consider (zero) "x = 0" | (small) "0 < x" "x < 2 powr of_int (- 20)"
    | (binade) "2 powr of_int (- 20) \<le> x" "x < 2 powr of_int (- 20 + 1)"
    | (large) "2 powr of_int (- 20 + 1) \<le> x"
    using assms by linarith
  then show ?thesis
  proof cases
    case zero
    then show ?thesis by (simp add: float32_micro float32_zero)
  next
    case small
    from float32_upper [OF small] have "float32 x \<le> 1 / 1048576"
      by (simp only: powr_m20)
    moreover from small(2) have "x < 1 / 1048576" by (simp only: powr_m20)
    ultimately show ?thesis by (simp add: float32_micro)
  next
    case binade
    have fl: "float32 x = of_int (round_half_even (x * 8796093022208)) / 8796093022208"
      using float32_binade [OF _ binade] by (simp only: powr_m43) simp
    have "float32 x < float32 (1 / 1000000) \<longleftrightarrow> round_half_even (x * 8796093022208) < 8796093"
      unfolding fl float32_micro by simp
    also have "\<dots> \<longleftrightarrow> round_half_even (x * 8796093022208) \<le> 8796092" by linarith
    also have "\<dots> \<longleftrightarrow> x * 8796093022208 \<le> of_int 8796092 + 1 / 2"
      by (rule round_half_even_le_even) simp
    also have "\<dots> \<longleftrightarrow> x \<le> 17592185 / 17592186044416" by (simp add: field_simps)
    finally show ?thesis .
  next
    case large
    from float32_lower [OF large] have "1 / 524288 \<le> float32 x"
      by (simp only: powr_m19)
    moreover from large have "1 / 524288 \<le> x" by (simp only: powr_m19)
    ultimately show ?thesis by (simp add: float32_micro)
  qed
qed

lemma total_loss_threshold:
  "total_loss beta occupation cloning =
     (if \<bar>beta - 1\<bar> \<le> 17592185 / 17592186044416 then occupation
      else cloning + beta * occupation)"
  by (simp only: total_loss_def float32_below_micro [OF abs_ge_zero])

subsection \<open>The selector\<close>

text \<open>
  C1, as stated, fails: the comparison of line 74 is made in single precision, where
  \<open>1e-6\<close> is the number \<open>8796093 / 2 ^ 43\<close>, a little below \<open>1 / 1000000\<close>. The double
  \<open>beta = 2251802065485039 / 2 ^ 51\<close> has \<open>|beta - 1| < 1 / 1000000\<close>, and its
  \<open>|beta - 1|\<close> is rounded onto that number and not below it: the total loss is the sum
  \<open>- 2 / 3\<close> of the cloning branch, not the occupation loss 0.
\<close>

theorem compute_loss_selector_counterexample:
  "\<bar>2251802065485039 / 2251799813685248 - 1\<bar> < (1 / 1000000 :: real)
   \<and> fst (compute_loss sample_externals Map.empty (0, 1, 0) (2251802065485039 / 2251799813685248))
       \<noteq> occupation_loss (fst (encode_qutrit sample_externals (0, 1, 0) Map.empty))
   \<and> compute_loss sample_externals Map.empty (0, 1, 0) (2251802065485039 / 2251799813685248)
       = (- 2 / 3, - 2 / 3, 5 / 6, 5 / 6)"
  by (simp add: compute_loss_def total_loss_threshold occupation_loss_def cloning_loss_def
      sample_externals_def Let_def)

text \<open>
  C1, amended. For every parameter set, state and \<open>beta\<close>, the total loss that
  \<open>compute_loss\<close> returns is the occupation loss of the encoded state when the single
  precision comparison of line 74 holds, and the returned cloning loss plus \<open>beta\<close>
  times the occupation loss otherwise; and that comparison holds exactly when
  \<open>|beta - 1| \<le> 17592185 / 2 ^ 44\<close>, which is about \<open>9.9999994e-7\<close>.
\<close>

theorem compute_loss_selector:
  "fst (compute_loss E w s beta) =
     (if float32 \<bar>beta - 1\<bar> < float32 (1 / 1000000)
      then occupation_loss (fst (encode_qutrit E s w))
      else fst (snd (compute_loss E w s beta)) + beta * occupation_loss (fst (encode_qutrit E s w)))
   \<and> (float32 \<bar>beta - 1\<bar> < float32 (1 / 1000000)) = (\<bar>beta - 1\<bar> \<le> 17592185 / 17592186044416)"
  by (simp add: compute_loss_def total_loss_def Let_def float32_below_micro split: prod.splits)

text \<open>
  C2, as the spec states it, fails: \<open>1.0 + 1e-7\<close> is not past the tolerance, it is
  inside it. With the identity encoder and the state \<open>(0, 1, 0)\<close> the occupation loss is
  0 and the cloning loss is \<open>- 2 / 3\<close>; at \<open>beta = 1 + 1e-7\<close> the total loss is the
  occupation loss 0, and not the sum \<open>- 2 / 3\<close>.
\<close>

theorem selector_boundary_counterexample:
  "fst (compute_loss sample_externals Map.empty (0, 1, 0) (1 + 1 / 10000000)) \<noteq>
   fst (snd (compute_loss sample_externals Map.empty (0, 1, 0) (1 + 1 / 10000000)))
     + (1 + 1 / 10000000) * occupation_loss (fst (encode_qutrit sample_externals (0, 1, 0) Map.empty))"
  by (simp add: compute_loss_def total_loss_threshold occupation_loss_def cloning_loss_def
      sample_externals_def Let_def)

text \<open>
  C2, amended. At \<open>beta = 1\<close> the total loss is the occupation loss; at
  \<open>beta = 1 + 1e-7\<close>, inside the tolerance, it is the occupation loss as well; at
  \<open>beta = 1 + 1e-5\<close>, past the tolerance, it is the cloning loss plus \<open>beta\<close> times
  the occupation loss.
\<close>

theorem selector_boundary:
  "fst (compute_loss E w s 1) = occupation_loss (fst (encode_qutrit E s w))
   \<and> fst (compute_loss E w s (1 + 1 / 10000000)) = occupation_loss (fst (encode_qutrit E s w))
   \<and> fst (compute_loss E w s (1 + 1 / 100000)) =
       fst (snd (compute_loss E w s (1 + 1 / 100000)))
         + (1 + 1 / 100000) * occupation_loss (fst (encode_qutrit E s w))"
  by (simp add: compute_loss_def total_loss_threshold Let_def split: prod.splits)

subsection \<open>The terms of the loss\<close>

text \<open>
  C4. The occupation loss is the squared modulus of component 0 of the encoded state, and
  it is the occupation term of the total loss; the two fidelities are those of the two
  decoded clones against the input state; the cloning loss is
  \<open>1 - F_A - F_B + (F_A - F_B)\<^sup>2\<close>.
\<close>

theorem compute_loss_terms:
  assumes enc: "encode_qutrit E s w = ((z0, z1, z2), U)"
    and clone: "buzek_hillery_clone E (effective_psi (z0, z1, z2)) = (rho_AB, rho_A, rho_B)"
    and res: "compute_loss E w s beta = (loss, cloning, F_A, F_B)"
  shows "occupation_loss (z0, z1, z2) = (cmod z0)\<^sup>2
     \<and> loss = (if float32 \<bar>beta - 1\<bar> < float32 (1 / 1000000) then (cmod z0)\<^sup>2
               else cloning + beta * (cmod z0)\<^sup>2)
     \<and> F_A = fidelity E s (decode_qubit_to_qutrit E (embed_rho E rho_A) U)
     \<and> F_B = fidelity E s (decode_qubit_to_qutrit E (embed_rho E rho_B) U)
     \<and> cloning = 1 - F_A - F_B + (F_A - F_B)\<^sup>2"
  using res
  by (auto simp add: compute_loss_def enc clone Let_def occupation_loss_def total_loss_def
      cloning_loss_def)

theorem compute_loss_terms_witness:
  "compute_loss sample_externals Map.empty (0, 1, 0) 8 = (- 2 / 3, - 2 / 3, 5 / 6, 5 / 6)
   \<and> compute_loss sample_externals Map.empty (1, 0, 0) 8 = (22 / 3, - 2 / 3, 5 / 6, 5 / 6)"
proof -
  have r1: "compute_loss sample_externals Map.empty (0, 1, 0) 8 = (- 2 / 3, - 2 / 3, 5 / 6, 5 / 6)"
    by (simp add: compute_loss_def sample_externals_def Let_def occupation_loss_def
        total_loss_threshold cloning_loss_def power2_eq_square)
  have r2: "compute_loss sample_externals Map.empty (1, 0, 0) 8 = (22 / 3, - 2 / 3, 5 / 6, 5 / 6)"
    by (simp add: compute_loss_def sample_externals_def Let_def occupation_loss_def
        total_loss_threshold cloning_loss_def power2_eq_square)
  have e: "\<And>s. encode_qutrit sample_externals s Map.empty = (s, [[1, 0, 0], [0, 1, 0], [0, 0, 1]])"
    by (simp add: sample_externals_def)
  have c: "\<And>p. buzek_hillery_clone sample_externals p = ([], [], [])"
    by (simp add: sample_externals_def)
  from compute_loss_terms [OF e c r1] compute_loss_terms [OF e c r2] r1 r2 show ?thesis by simp
qed

section \<open>The loss of a batch\<close>

lemma compute_loss_batch_nonempty:
  "batch \<noteq> [] \<Longrightarrow>
   compute_loss_batch E w batch beta =
     Inr (sum_list (map (\<lambda>s. fst (compute_loss E w s beta)) batch) / real (length batch),
          sum_list (map (\<lambda>s. fst (snd (compute_loss E w s beta))) batch) / real (length batch),
          sum_list (map (\<lambda>s. fst (snd (snd (compute_loss E w s beta)))) batch) / real (length batch),
          sum_list (map (\<lambda>s. snd (snd (snd (compute_loss E w s beta)))) batch) / real (length batch))"
  by (simp add: compute_loss_batch_def vmap_def mean_def)

lemma compute_loss_batch_empty: "compute_loss_batch E w [] beta = Inl NotANumber"
  by (simp add: compute_loss_batch_def vmap_def mean_def)

lemma compute_loss_batch_Inr_nonempty: "compute_loss_batch E w batch beta = Inr r \<Longrightarrow> batch \<noteq> []"
  by (auto simp add: compute_loss_batch_empty)

lemma weighted_mean:
  assumes "xs \<noteq> []" "ys \<noteq> []"
  shows "(real (length xs) * (sum_list (map f xs) / real (length xs))
          + real (length ys) * (sum_list (map f ys) / real (length ys)))
         / real (length xs + length ys)
       = sum_list (map f (xs @ ys)) / real (length (xs @ ys))"
  using assms by simp

lemma sample_metrics:
  "compute_loss_batch sample_externals w [(0, 1, 0)] 8 = Inr (- 2 / 3, - 2 / 3, 5 / 6, 5 / 6)"
  by (simp add: compute_loss_batch_nonempty compute_loss_def sample_externals_def Let_def
      occupation_loss_def total_loss_threshold cloning_loss_def)

text \<open>
  C5. On a batch that is not empty, \<open>compute_loss_batch\<close> returns the arithmetic
  mean, over the states of the batch, of each of the four outputs of \<open>compute_loss\<close>,
  each state taken on its own. On a batch of one state it returns \<open>compute_loss\<close>
  of that state. On the concatenation of two batches it returns the average of the two
  results, weighted by the sizes of the batches.
\<close>

theorem compute_loss_batch_mean:
  "(batch \<noteq> [] \<longrightarrow>
      compute_loss_batch E w batch beta =
        Inr (sum_list (map (\<lambda>s. fst (compute_loss E w s beta)) batch) / real (length batch),
             sum_list (map (\<lambda>s. fst (snd (compute_loss E w s beta))) batch) / real (length batch),
             sum_list (map (\<lambda>s. fst (snd (snd (compute_loss E w s beta)))) batch) / real (length batch),
             sum_list (map (\<lambda>s. snd (snd (snd (compute_loss E w s beta)))) batch) / real (length batch)))
   \<and> compute_loss_batch E w [s] beta = Inr (compute_loss E w s beta)
   \<and> (compute_loss_batch E w xs beta = Inr (a1, a2, a3, a4) \<longrightarrow>
      compute_loss_batch E w ys beta = Inr (b1, b2, b3, b4) \<longrightarrow>
      compute_loss_batch E w (xs @ ys) beta =
        Inr ((real (length xs) * a1 + real (length ys) * b1) / real (length xs + length ys),
             (real (length xs) * a2 + real (length ys) * b2) / real (length xs + length ys),
             (real (length xs) * a3 + real (length ys) * b3) / real (length xs + length ys),
             (real (length xs) * a4 + real (length ys) * b4) / real (length xs + length ys)))"
proof (intro conjI impI)
  assume "batch \<noteq> []"
  then show "compute_loss_batch E w batch beta =
        Inr (sum_list (map (\<lambda>s. fst (compute_loss E w s beta)) batch) / real (length batch),
             sum_list (map (\<lambda>s. fst (snd (compute_loss E w s beta))) batch) / real (length batch),
             sum_list (map (\<lambda>s. fst (snd (snd (compute_loss E w s beta)))) batch) / real (length batch),
             sum_list (map (\<lambda>s. snd (snd (snd (compute_loss E w s beta)))) batch) / real (length batch))"
    by (rule compute_loss_batch_nonempty)
next
  show "compute_loss_batch E w [s] beta = Inr (compute_loss E w s beta)"
    by (simp add: compute_loss_batch_nonempty)
next
  assume a: "compute_loss_batch E w xs beta = Inr (a1, a2, a3, a4)"
    and b: "compute_loss_batch E w ys beta = Inr (b1, b2, b3, b4)"
  from a have xs: "xs \<noteq> []" by (rule compute_loss_batch_Inr_nonempty)
  from b have ys: "ys \<noteq> []" by (rule compute_loss_batch_Inr_nonempty)
  from xs ys have xy: "xs @ ys \<noteq> []" by simp
  from a have av: "a1 = sum_list (map (\<lambda>s. fst (compute_loss E w s beta)) xs) / real (length xs)"
      "a2 = sum_list (map (\<lambda>s. fst (snd (compute_loss E w s beta))) xs) / real (length xs)"
      "a3 = sum_list (map (\<lambda>s. fst (snd (snd (compute_loss E w s beta)))) xs) / real (length xs)"
      "a4 = sum_list (map (\<lambda>s. snd (snd (snd (compute_loss E w s beta)))) xs) / real (length xs)"
    by (simp_all add: compute_loss_batch_nonempty [OF xs])
  from b have bv: "b1 = sum_list (map (\<lambda>s. fst (compute_loss E w s beta)) ys) / real (length ys)"
      "b2 = sum_list (map (\<lambda>s. fst (snd (compute_loss E w s beta))) ys) / real (length ys)"
      "b3 = sum_list (map (\<lambda>s. fst (snd (snd (compute_loss E w s beta)))) ys) / real (length ys)"
      "b4 = sum_list (map (\<lambda>s. snd (snd (snd (compute_loss E w s beta)))) ys) / real (length ys)"
    by (simp_all add: compute_loss_batch_nonempty [OF ys])
  show "compute_loss_batch E w (xs @ ys) beta =
        Inr ((real (length xs) * a1 + real (length ys) * b1) / real (length xs + length ys),
             (real (length xs) * a2 + real (length ys) * b2) / real (length xs + length ys),
             (real (length xs) * a3 + real (length ys) * b3) / real (length xs + length ys),
             (real (length xs) * a4 + real (length ys) * b4) / real (length xs + length ys))"
    unfolding compute_loss_batch_nonempty [OF xy] av bv weighted_mean [OF xs ys] ..
qed

theorem compute_loss_batch_mean_witness:
  "compute_loss_batch sample_externals Map.empty ([(0, 1, 0)] @ [(1, 0, 0), (1, 0, 0)]) 8
     = Inr (14 / 3, - 2 / 3, 5 / 6, 5 / 6)"
proof -
  have l: "compute_loss sample_externals Map.empty (0, 1, 0) 8 = (- 2 / 3, - 2 / 3, 5 / 6, 5 / 6)"
    by (simp add: compute_loss_def sample_externals_def Let_def occupation_loss_def
        total_loss_threshold cloning_loss_def)
  have r: "compute_loss sample_externals Map.empty (1, 0, 0) 8 = (22 / 3, - 2 / 3, 5 / 6, 5 / 6)"
    by (simp add: compute_loss_def sample_externals_def Let_def occupation_loss_def
        total_loss_threshold cloning_loss_def)
  note t = compute_loss_batch_mean [where E = sample_externals and w = Map.empty and beta = 8]
  have a: "compute_loss_batch sample_externals Map.empty [(0, 1, 0)] 8
             = Inr (- 2 / 3, - 2 / 3, 5 / 6, 5 / 6)"
    using t [where s = "(0, 1, 0)"] l by simp
  have b: "compute_loss_batch sample_externals Map.empty [(1, 0, 0), (1, 0, 0)] 8
             = Inr (22 / 3, - 2 / 3, 5 / 6, 5 / 6)"
    using t [where batch = "[(1, 0, 0), (1, 0, 0)]"] r by simp
  from t [where xs = "[(0, 1, 0)]" and ys = "[(1, 0, 0), (1, 0, 0)]",
      THEN conjunct2, THEN conjunct2, rule_format, OF a b]
  show ?thesis by simp
qed

section \<open>The optimizer step\<close>

lemma total_loss_for_grad_nonempty:
  "batch \<noteq> [] \<Longrightarrow>
   total_loss_for_grad E w batch beta = Inr (batch_mean_total_loss E batch beta w)"
  by (simp add: total_loss_for_grad_def compute_loss_batch_nonempty batch_mean_total_loss_def)

lemma update_step_eq:
  "update_step E lr w batch beta =
     Inr (tree_map (\<lambda>x g. x - lr * g) w (jax_grad E (\<lambda>w'. total_loss_for_grad E w' batch beta) w))"
  by (simp add: update_step_def grad_fn_def)

lemma dom_tree_map: "dom (tree_map f w g) = dom w"
  by (auto simp add: tree_map_def dom_def split: option.splits)

lemma tree_map_Some: "w k = Some x \<Longrightarrow> tree_map f w g k = Some (f x (g k))"
  by (simp add: tree_map_def)

lemma tree_map_zero: "tree_map (\<lambda>x g. x - 0 * g) w g = w"
  by (rule ext) (simp add: tree_map_def split: option.splits)

lemma update_step_dom:
  assumes "update_step E lr w batch beta = Inr w'"
  shows "dom w' = dom w"
proof -
  from assms obtain g where "w' = tree_map (\<lambda>x gr. x - lr * gr) w g"
    by (auto simp add: update_step_eq)
  then show ?thesis by (simp only: dom_tree_map)
qed

text \<open>
  C6. For every parameter mapping, batch, \<open>beta\<close> and learning rate: the gradient that
  the step uses is \<open>jax.grad\<close> of \<open>total_loss_for_grad\<close> at the weights; on a batch that
  is not empty that function is the batch-mean total loss, and where \<open>jax.grad\<close> keeps
  its promise the entry at every key is the derivative of the batch-mean total loss in
  the value at that key; the step returns a dictionary with the keys of the weights and,
  at every key \<open>k\<close>, the value \<open>params[k] - lr * grad[k]\<close>; with \<open>lr = 0\<close> it returns
  the weights unchanged.
\<close>

theorem update_step_rule:
  assumes grad: "grad = grad_fn E w batch beta"
  shows "grad = jax_grad E (\<lambda>w'. total_loss_for_grad E w' batch beta) w
     \<and> (batch \<noteq> [] \<longrightarrow>
          (\<forall>w'. total_loss_for_grad E w' batch beta = Inr (batch_mean_total_loss E batch beta w')))
     \<and> (batch \<noteq> [] \<longrightarrow> jax_grad_at E (\<lambda>w'. total_loss_for_grad E w' batch beta) w \<longrightarrow>
          (\<forall>k x. w k = Some x \<longrightarrow>
             ((\<lambda>y. batch_mean_total_loss E batch beta (w(k \<mapsto> y))) has_real_derivative grad k) (at x)))
     \<and> (\<exists>new_params. update_step E lr w batch beta = Inr new_params
          \<and> dom new_params = dom w
          \<and> (\<forall>k x. w k = Some x \<longrightarrow> new_params k = Some (x - lr * grad k)))
     \<and> update_step E 0 w batch beta = Inr w"
proof (intro conjI impI allI)
  show g: "grad = jax_grad E (\<lambda>w'. total_loss_for_grad E w' batch beta) w"
    unfolding grad by (simp only: grad_fn_def)
  show "total_loss_for_grad E w' batch beta = Inr (batch_mean_total_loss E batch beta w')"
    if "batch \<noteq> []" for w'
    using that by (rule total_loss_for_grad_nonempty)
  show "((\<lambda>y. batch_mean_total_loss E batch beta (w(k \<mapsto> y))) has_real_derivative grad k) (at x)"
    if ne: "batch \<noteq> []" and promise: "jax_grad_at E (\<lambda>w'. total_loss_for_grad E w' batch beta) w"
      and k: "w k = Some x" for k x
  proof -
    from promise k
    have "((\<lambda>y. projr (total_loss_for_grad E (w(k \<mapsto> y)) batch beta)) has_real_derivative
            jax_grad E (\<lambda>w'. total_loss_for_grad E w' batch beta) w k) (at x)"
      unfolding jax_grad_at_def by blast
    then show ?thesis
      unfolding total_loss_for_grad_nonempty [OF ne] sum.sel g .
  qed
  show "\<exists>new_params. update_step E lr w batch beta = Inr new_params
          \<and> dom new_params = dom w
          \<and> (\<forall>k x. w k = Some x \<longrightarrow> new_params k = Some (x - lr * grad k))"
    unfolding update_step_eq g
    by (simp add: dom_tree_map tree_map_Some)
  show "update_step E 0 w batch beta = Inr w"
    unfolding update_step_eq by (simp only: tree_map_zero)
qed

theorem update_step_rule_witness:
  "update_step sample_externals 0 [''1'' \<mapsto> 2] [(0, 1, 0)] 8 = Inr [''1'' \<mapsto> 2]
   \<and> (\<exists>new_params. update_step sample_externals (1 / 100) [''1'' \<mapsto> 2] [(0, 1, 0)] 8 = Inr new_params
         \<and> new_params ''1'' = Some 2)
   \<and> ((\<lambda>y. batch_mean_total_loss sample_externals [(0, 1, 0)] 8 [''1'' \<mapsto> 2, ''1'' \<mapsto> y])
        has_real_derivative 0) (at 2)"
proof -
  have ne: "[(0::complex, 1::complex, 0::complex)] \<noteq> []" by simp
  have loss: "\<And>w'. total_loss_for_grad sample_externals w' [(0, 1, 0)] 8 = Inr (- 2 / 3)"
    by (simp add: total_loss_for_grad_def sample_metrics)
  have g0: "\<And>f w k. jax_grad sample_externals f w k = 0"
    by (simp add: sample_externals_def)
  have promise: "jax_grad_at sample_externals
      (\<lambda>w'. total_loss_for_grad sample_externals w' [(0, 1, 0)] 8) [''1'' \<mapsto> 2]"
    unfolding jax_grad_at_def loss g0 by simp
  note t = update_step_rule [OF refl, where E = sample_externals and beta = 8
      and w = "[''1'' \<mapsto> 2]" and batch = "[(0, 1, 0)]"]
  from t [where lr = 0]
  have z: "update_step sample_externals 0 [''1'' \<mapsto> 2] [(0, 1, 0)] 8 = Inr [''1'' \<mapsto> 2]"
    by simp
  from t [where lr = "1 / 100"] obtain new_params where
    u: "update_step sample_externals (1 / 100) [''1'' \<mapsto> 2] [(0, 1, 0)] 8 = Inr new_params"
    and v: "\<forall>k x. [''1'' \<mapsto> 2] k = Some x \<longrightarrow>
              new_params k = Some (x - 1 / 100 * grad_fn sample_externals [''1'' \<mapsto> 2] [(0, 1, 0)] 8 k)"
    by blast
  from v [rule_format, of "''1''" 2] have n: "new_params ''1'' = Some 2"
    by (simp add: grad_fn_def g0)
  from t [where lr = 0, THEN conjunct2, THEN conjunct2, THEN conjunct1, rule_format, OF ne promise,
      of "''1''" 2]
  have d: "((\<lambda>y. batch_mean_total_loss sample_externals [(0, 1, 0)] 8 [''1'' \<mapsto> 2, ''1'' \<mapsto> y])
        has_real_derivative 0) (at 2)"
    by (simp add: grad_fn_def g0)
  from z u n d show ?thesis by blast
qed

section \<open>The training loop\<close>

lemma for_loop_append:
  "for_loop (xs @ ys) body s =
     (case for_loop xs body s of Inl e \<Rightarrow> Inl e | Inr s' \<Rightarrow> for_loop ys body s')"
  by (induction xs arbitrary: s) (simp_all split: sum.splits)

lemma batch_body_Inr:
  assumes "batch_body E lr beta batch s = Inr s'"
  shows "\<exists>batch_loss cloning F_A F_B.
           compute_loss_batch E (ws s) batch beta = Inr (batch_loss, cloning, F_A, F_B)
         \<and> update_step E lr (ws s) batch beta = Inr (ws s')
         \<and> epoch_loss s' = epoch_loss s + batch_loss
         \<and> epoch_cloning_loss s' = epoch_cloning_loss s + cloning
         \<and> total_FA s' = total_FA s + F_A
         \<and> total_FB s' = total_FB s + F_B
         \<and> num_batches s' = num_batches s + 1"
  using assms by (auto simp add: batch_body_def split: sum.splits prod.splits)

lemma batch_body_nonempty:
  "batch \<noteq> [] \<Longrightarrow> \<exists>s'. batch_body E lr beta batch s = Inr s'"
  by (simp add: batch_body_def compute_loss_batch_nonempty update_step_eq)

lemma batch_loop_returns:
  "[] \<notin> set batches \<Longrightarrow> \<exists>s'. for_loop batches (batch_body E lr beta) s = Inr s'"
proof (induction batches arbitrary: s)
  case Nil
  show ?case by simp
next
  case (Cons b bs)
  from Cons.prems have "b \<noteq> []" by auto
  then obtain s1 where s1: "batch_body E lr beta b s = Inr s1"
    using batch_body_nonempty by blast
  from Cons.prems have "[] \<notin> set bs" by simp
  from Cons.IH [OF this, of s1] s1 show ?case by simp
qed

lemma batch_loop_count:
  "for_loop batches (batch_body E lr beta) s = Inr s' \<Longrightarrow>
   num_batches s' = num_batches s + length batches"
proof (induction batches arbitrary: s)
  case Nil
  then show ?case by simp
next
  case (Cons b bs)
  from Cons.prems obtain s1 where s1: "batch_body E lr beta b s = Inr s1"
    and rest: "for_loop bs (batch_body E lr beta) s1 = Inr s'"
    by (auto split: sum.splits)
  from batch_body_Inr [OF s1] have "num_batches s1 = num_batches s + 1" by blast
  with Cons.IH [OF rest] show ?case by simp
qed


lemma batch_loop_dom:
  "for_loop batches (batch_body E lr beta) s = Inr s' \<Longrightarrow> dom (ws s') = dom (ws s)"
proof (induction batches arbitrary: s)
  case Nil
  then show ?case by simp
next
  case (Cons b bs)
  from Cons.prems obtain s1 where s1: "batch_body E lr beta b s = Inr s1"
    and rest: "for_loop bs (batch_body E lr beta) s1 = Inr s'"
    by (auto split: sum.splits)
  from batch_body_Inr [OF s1] have "update_step E lr (ws s) b beta = Inr (ws s1)" by blast
  then have "dom (ws s1) = dom (ws s)" by (rule update_step_dom)
  with Cons.IH [OF rest] show ?case by simp
qed

lemma batch_loop_split:
  assumes "for_loop (pre @ batch # post) (batch_body E lr beta) s0 = Inr s_end"
  shows "\<exists>s s' batch_loss cloning F_A F_B.
           for_loop pre (batch_body E lr beta) s0 = Inr s
         \<and> compute_loss_batch E (ws s) batch beta = Inr (batch_loss, cloning, F_A, F_B)
         \<and> update_step E lr (ws s) batch beta = Inr (ws s')
         \<and> epoch_loss s' = epoch_loss s + batch_loss
         \<and> epoch_cloning_loss s' = epoch_cloning_loss s + cloning
         \<and> total_FA s' = total_FA s + F_A
         \<and> total_FB s' = total_FB s + F_B
         \<and> num_batches s' = num_batches s + 1
         \<and> for_loop post (batch_body E lr beta) s' = Inr s_end"
proof -
  from assms obtain s where s: "for_loop pre (batch_body E lr beta) s0 = Inr s"
    and rest: "for_loop (batch # post) (batch_body E lr beta) s = Inr s_end"
    by (auto simp add: for_loop_append split: sum.splits)
  from rest obtain s' where s': "batch_body E lr beta batch s = Inr s'"
    and post: "for_loop post (batch_body E lr beta) s' = Inr s_end"
    by (auto split: sum.splits)
  from batch_body_Inr [OF s'] s post show ?thesis by blast
qed

subsection \<open>Epochs\<close>

lemma range_1_9: "[1..<9] = [1, 2, 3, 4, 5, 6, 7, 8::nat]"
  by code_simp

lemma str_keys: "set (map str [1..<9]) = weight_keys"
  by (simp only: range_1_9) (auto simp add: str.simps weight_keys_def)

lemma dom_init_weights: "dom (init_weights randn) = weight_keys"
proof -
  have "dom (init_weights randn) = set (map str [1..<9])"
    unfolding init_weights_def dom_map_of_conv_image_fst
    by (simp only: set_map image_image fst_conv)
  then show ?thesis by (simp only: str_keys)
qed

lemma card_keys: "card weight_keys = 8"
  by (simp add: weight_keys_def)

lemma train_0: "train E randn dl 0 lr beta = Inr (init_weights randn, [], [], [], [])"
  by (simp add: train_def train_start_def)

lemma for_loop_upt_Suc:
  "for_loop [0..<Suc n] body s =
     (case for_loop [0..<n] body s of Inl e \<Rightarrow> Inl e | Inr s' \<Rightarrow> body n s')"
  by (simp add: for_loop_append split: sum.splits)

lemma train_Suc:
  "train E randn dl (Suc n) lr beta =
     (case train E randn dl n lr beta of
        Inl e \<Rightarrow> Inl e
      | Inr (w, lh, clh, fah, fbh) \<Rightarrow>
          (case for_loop (dl n) (batch_body E lr beta) (epoch_start w) of
             Inl e \<Rightarrow> Inl e
           | Inr s \<Rightarrow>
               if num_batches s = 0 then Inl ZeroDivisionError
               else Inr (ws s,
                         lh @ [epoch_loss s / real (num_batches s)],
                         clh @ [epoch_cloning_loss s / real (num_batches s)],
                         fah @ [total_FA s / real (num_batches s)],
                         fbh @ [total_FB s / real (num_batches s)])))"
  unfolding train_def for_loop_upt_Suc
  by (simp add: epoch_body_def split: sum.splits)

lemma train_lengths:
  "train E randn dl n lr beta = Inr (w, lh, clh, fah, fbh) \<Longrightarrow>
   length lh = n \<and> length clh = n \<and> length fah = n \<and> length fbh = n"
proof (induction n arbitrary: w lh clh fah fbh)
  case 0
  then show ?case by (simp add: train_0)
next
  case (Suc n)
  from Suc.prems obtain w0 lh0 clh0 fah0 fbh0 where
    prev: "train E randn dl n lr beta = Inr (w0, lh0, clh0, fah0, fbh0)"
    by (auto simp add: train_Suc split: sum.splits)
  from Suc.prems prev obtain a b c d where
    "lh = lh0 @ [a]" "clh = clh0 @ [b]" "fah = fah0 @ [c]" "fbh = fbh0 @ [d]"
    by (auto simp add: train_Suc split: sum.splits if_splits)
  with Suc.IH [OF prev] show ?case by simp
qed

lemma train_epoch:
  assumes "train E randn dl (Suc e) lr beta = Inr (w, lh, clh, fah, fbh)"
  shows "\<exists>w_e s. train E randn dl e lr beta
                    = Inr (w_e, take e lh, take e clh, take e fah, take e fbh)
           \<and> for_loop (dl e) (batch_body E lr beta) (epoch_start w_e) = Inr s
           \<and> w = ws s
           \<and> dl e \<noteq> []
           \<and> lh ! e = epoch_loss s / real (length (dl e))
           \<and> clh ! e = epoch_cloning_loss s / real (length (dl e))
           \<and> fah ! e = total_FA s / real (length (dl e))
           \<and> fbh ! e = total_FB s / real (length (dl e))"
proof -
  from assms obtain w0 lh0 clh0 fah0 fbh0 where
    prev: "train E randn dl e lr beta = Inr (w0, lh0, clh0, fah0, fbh0)"
    by (auto simp add: train_Suc split: sum.splits)
  from assms prev obtain s where
    loop: "for_loop (dl e) (batch_body E lr beta) (epoch_start w0) = Inr s"
    by (auto simp add: train_Suc split: sum.splits)
  from assms prev loop have nz: "num_batches s \<noteq> 0"
    and res: "w = ws s" "lh = lh0 @ [epoch_loss s / real (num_batches s)]"
      "clh = clh0 @ [epoch_cloning_loss s / real (num_batches s)]"
      "fah = fah0 @ [total_FA s / real (num_batches s)]"
      "fbh = fbh0 @ [total_FB s / real (num_batches s)]"
    by (auto simp add: train_Suc split: if_splits)
  from batch_loop_count [OF loop] have cnt: "num_batches s = length (dl e)"
    by (simp add: epoch_start_def)
  from train_lengths [OF prev] have len: "length lh0 = e" "length clh0 = e"
    "length fah0 = e" "length fbh0 = e" by simp_all
  from nz cnt have "dl e \<noteq> []" by auto
  with prev loop res cnt len show ?thesis by (simp add: nth_append)
qed

lemma train_prefix:
  "train E randn dl n lr beta = Inr (w, lh, clh, fah, fbh) \<Longrightarrow> e \<le> n \<Longrightarrow>
   \<exists>w_e. train E randn dl e lr beta = Inr (w_e, take e lh, take e clh, take e fah, take e fbh)"
proof (induction n arbitrary: w lh clh fah fbh)
  case 0
  then show ?case by (simp add: train_0)
next
  case (Suc n)
  show ?case
  proof (cases "e = Suc n")
    case True
    from train_lengths [OF Suc.prems(1)] Suc.prems(1) True show ?thesis by simp
  next
    case False
    with Suc.prems(2) have le: "e \<le> n" by simp
    from train_epoch [OF Suc.prems(1)] obtain w_n where
      prev: "train E randn dl n lr beta = Inr (w_n, take n lh, take n clh, take n fah, take n fbh)"
      by blast
    from Suc.IH [OF prev le] le show ?thesis by (simp add: min_absorb1)
  qed
qed

lemma train_returns:
  "(\<And>e. e < n \<Longrightarrow> dl e \<noteq> [] \<and> [] \<notin> set (dl e)) \<Longrightarrow> \<exists>r. train E randn dl n lr beta = Inr r"
proof (induction n)
  case 0
  show ?case by (simp add: train_0)
next
  case (Suc n)
  from Suc.IH Suc.prems obtain w lh clh fah fbh where
    prev: "train E randn dl n lr beta = Inr (w, lh, clh, fah, fbh)"
    by (metis less_Suc_eq prod_cases5)
  from Suc.prems [of n] have ne: "dl n \<noteq> []" and nn: "[] \<notin> set (dl n)" by simp_all
  from batch_loop_returns [OF nn] obtain s where
    loop: "for_loop (dl n) (batch_body E lr beta) (epoch_start w) = Inr s" by blast
  from batch_loop_count [OF loop] ne have "num_batches s \<noteq> 0" by simp
  with prev loop show ?case by (simp add: train_Suc)
qed

lemma train_dom:
  "train E randn dl n lr beta = Inr (w, hist) \<Longrightarrow> dom w = dom (init_weights randn)"
proof (induction n arbitrary: w hist)
  case 0
  then show ?case by (simp add: train_0)
next
  case (Suc n)
  obtain lh clh fah fbh where hist: "hist = (lh, clh, fah, fbh)" by (cases hist) auto
  from train_epoch [OF Suc.prems [unfolded hist]] obtain w_n s where
    prev: "train E randn dl n lr beta = Inr (w_n, take n lh, take n clh, take n fah, take n fbh)"
    and loop: "for_loop (dl n) (batch_body E lr beta) (epoch_start w_n) = Inr s"
    and w: "w = ws s"
    by blast
  from batch_loop_dom [OF loop] w have "dom w = dom w_n" by (simp add: epoch_start_def)
  with Suc.IH [OF prev] show ?case by simp
qed

text \<open>
  C7. For a batch at any place in the sequence of batches of any epoch of a run that
  returns: the four metrics added to the accumulators for it are those of
  \<open>compute_loss_batch\<close> at the weights left by the epochs and the batches before it;
  the weights handed on to the batches after it are the \<open>update_step\<close> of those same
  weights on that batch; and the accumulators at the end of the epoch, over the number of
  batches, are the entries of the histories for that epoch.
\<close>

theorem metrics_before_update:
  assumes run: "train E randn dl num_epochs lr beta = Inr (w, lh, clh, fah, fbh)"
    and e: "e < num_epochs"
    and batches: "dl e = pre @ batch # post"
  shows "\<exists>w_e s s' s_end batch_loss cloning F_A F_B.
           train E randn dl e lr beta = Inr (w_e, take e lh, take e clh, take e fah, take e fbh)
         \<and> for_loop pre (batch_body E lr beta) (epoch_start w_e) = Inr s
         \<and> compute_loss_batch E (ws s) batch beta = Inr (batch_loss, cloning, F_A, F_B)
         \<and> update_step E lr (ws s) batch beta = Inr (ws s')
         \<and> epoch_loss s' = epoch_loss s + batch_loss
         \<and> epoch_cloning_loss s' = epoch_cloning_loss s + cloning
         \<and> total_FA s' = total_FA s + F_A
         \<and> total_FB s' = total_FB s + F_B
         \<and> num_batches s' = num_batches s + 1
         \<and> for_loop post (batch_body E lr beta) s' = Inr s_end
         \<and> lh ! e = epoch_loss s_end / real (length (dl e))
         \<and> clh ! e = epoch_cloning_loss s_end / real (length (dl e))
         \<and> fah ! e = total_FA s_end / real (length (dl e))
         \<and> fbh ! e = total_FB s_end / real (length (dl e))
         \<and> train E randn dl (Suc e) lr beta
             = Inr (ws s_end, take (Suc e) lh, take (Suc e) clh, take (Suc e) fah, take (Suc e) fbh)"
proof -
  from e have "Suc e \<le> num_epochs" by simp
  from train_prefix [OF run this] obtain w' where
    next_run: "train E randn dl (Suc e) lr beta
           = Inr (w', take (Suc e) lh, take (Suc e) clh, take (Suc e) fah, take (Suc e) fbh)"
    by blast
  from train_epoch [OF next_run] obtain w_e s_end where
    prev: "train E randn dl e lr beta = Inr (w_e, take e lh, take e clh, take e fah, take e fbh)"
    and loop: "for_loop (dl e) (batch_body E lr beta) (epoch_start w_e) = Inr s_end"
    and w': "w' = ws s_end"
    and entries: "lh ! e = epoch_loss s_end / real (length (dl e))"
      "clh ! e = epoch_cloning_loss s_end / real (length (dl e))"
      "fah ! e = total_FA s_end / real (length (dl e))"
      "fbh ! e = total_FB s_end / real (length (dl e))"
    by (auto simp add: min_absorb2)
  from batch_loop_split [OF loop [unfolded batches]] prev entries next_run [unfolded w']
  show ?thesis by blast
qed

theorem metrics_before_update_witness:
  "\<exists>w lh clh fah fbh.
      train sample_externals zero_randn one_batch_loader 1 (1 / 100) 8 = Inr (w, lh, clh, fah, fbh)
      \<and> update_step sample_externals (1 / 100) (init_weights zero_randn) [(0, 1, 0)] 8 = Inr w
      \<and> lh ! 0 = - 2 / 3 \<and> clh ! 0 = - 2 / 3 \<and> fah ! 0 = 5 / 6 \<and> fbh ! 0 = 5 / 6"
proof -
  have "\<exists>r. train sample_externals zero_randn one_batch_loader 1 (1 / 100) 8 = Inr r"
    by (rule train_returns) (simp add: one_batch_loader_def)
  then obtain w lh clh fah fbh where
    run: "train sample_externals zero_randn one_batch_loader 1 (1 / 100) 8
            = Inr (w, lh, clh, fah, fbh)"
    by (metis prod_cases5)
  have e: "(0::nat) < 1" by simp
  have batches: "one_batch_loader 0 = [] @ [(0, 1, 0)] # []"
    by (simp add: one_batch_loader_def)
  from metrics_before_update [OF run e batches]
  have "update_step sample_externals (1 / 100) (init_weights zero_randn) [(0, 1, 0)] 8 = Inr w
      \<and> lh ! 0 = - 2 / 3 \<and> clh ! 0 = - 2 / 3 \<and> fah ! 0 = 5 / 6 \<and> fbh ! 0 = 5 / 6"
  proof (elim exE conjE)
    fix w_e :: weights and s s' s_end :: epoch_state and bl cl fa fb :: real
    assume prev: "train sample_externals zero_randn one_batch_loader 0 (1 / 100) 8
              = Inr (w_e, take 0 lh, take 0 clh, take 0 fah, take 0 fbh)"
      and pre: "for_loop [] (batch_body sample_externals (1 / 100) 8) (epoch_start w_e) = Inr s"
      and m: "compute_loss_batch sample_externals (ws s) [(0, 1, 0)] 8 = Inr (bl, cl, fa, fb)"
      and u: "update_step sample_externals (1 / 100) (ws s) [(0, 1, 0)] 8 = Inr (ws s')"
      and acc: "epoch_loss s' = epoch_loss s + bl"
        "epoch_cloning_loss s' = epoch_cloning_loss s + cl"
        "total_FA s' = total_FA s + fa" "total_FB s' = total_FB s + fb"
      and post: "for_loop [] (batch_body sample_externals (1 / 100) 8) s' = Inr s_end"
      and entries: "lh ! 0 = epoch_loss s_end / real (length (one_batch_loader 0))"
        "clh ! 0 = epoch_cloning_loss s_end / real (length (one_batch_loader 0))"
        "fah ! 0 = total_FA s_end / real (length (one_batch_loader 0))"
        "fbh ! 0 = total_FB s_end / real (length (one_batch_loader 0))"
      and next_run: "train sample_externals zero_randn one_batch_loader (Suc 0) (1 / 100) 8
              = Inr (ws s_end, take (Suc 0) lh, take (Suc 0) clh, take (Suc 0) fah, take (Suc 0) fbh)"
    from prev have w_e: "w_e = init_weights zero_randn" by (simp add: train_0)
    from pre have s: "s = epoch_start w_e" by simp
    from post have s_end: "s_end = s'" by simp
    from m have v: "bl = - 2 / 3" "cl = - 2 / 3" "fa = 5 / 6" "fb = 5 / 6"
      by (simp_all add: sample_metrics)
    from next_run run have w: "w = ws s'" by (simp add: s_end)
    from u acc entries
    show "update_step sample_externals (1 / 100) (init_weights zero_randn) [(0, 1, 0)] 8 = Inr w
      \<and> lh ! 0 = - 2 / 3 \<and> clh ! 0 = - 2 / 3 \<and> fah ! 0 = 5 / 6 \<and> fbh ! 0 = 5 / 6"
      by (simp add: w s w_e s_end v epoch_start_def one_batch_loader_def)
  qed
  with run show ?thesis by blast
qed



text \<open>
  C9. The weights that \<open>train\<close> starts with are those of the random initialization;
  their keys are the eight strings \<open>1\<close> to \<open>8\<close>. A step of the optimizer keeps the
  keys. So after any number of whole epochs and any number of batches of the next one,
  the weights have these eight keys.
\<close>

theorem weights_keys_invariant:
  "dom (init_weights randn) = weight_keys
   \<and> card (dom (init_weights randn)) = 8
   \<and> train E randn dl 0 lr beta = Inr (init_weights randn, [], [], [], [])
   \<and> (update_step E lr w batch beta = Inr w' \<longrightarrow> dom w' = dom w)
   \<and> (train E randn dl e lr beta = Inr (w_e, hist) \<longrightarrow>
        for_loop pre (batch_body E lr beta) (epoch_start w_e) = Inr s \<longrightarrow>
        dom (ws s) = weight_keys)"
proof (intro conjI impI)
  show d: "dom (init_weights randn) = weight_keys"
    by (rule dom_init_weights)
  show "card (dom (init_weights randn)) = 8"
    unfolding d by (rule card_keys)
  show "train E randn dl 0 lr beta = Inr (init_weights randn, [], [], [], [])"
    by (rule train_0)
  show "dom w' = dom w" if "update_step E lr w batch beta = Inr w'"
    using that by (rule update_step_dom)
  show "dom (ws s) = weight_keys"
    if t: "train E randn dl e lr beta = Inr (w_e, hist)"
      and l: "for_loop pre (batch_body E lr beta) (epoch_start w_e) = Inr s"
  proof -
    from batch_loop_dom [OF l] have "dom (ws s) = dom w_e" by (simp add: epoch_start_def)
    with train_dom [OF t] d show ?thesis by simp
  qed
qed

theorem weights_keys_invariant_witness:
  "\<exists>w_e hist s w'.
     train sample_externals zero_randn one_batch_loader 1 (1 / 100) 8 = Inr (w_e, hist)
     \<and> for_loop [[(0, 1, 0)]] (batch_body sample_externals (1 / 100) 8) (epoch_start w_e) = Inr s
     \<and> dom (ws s) = weight_keys
     \<and> update_step sample_externals (1 / 100) w_e [(0, 1, 0)] 8 = Inr w'
     \<and> dom w' = dom w_e"
proof -
  have "\<exists>r. train sample_externals zero_randn one_batch_loader 1 (1 / 100) 8 = Inr r"
    by (rule train_returns) (simp add: one_batch_loader_def)
  then obtain w_e hist where
    t: "train sample_externals zero_randn one_batch_loader 1 (1 / 100) 8 = Inr (w_e, hist)"
    by (metis surj_pair)
  have "[] \<notin> set [[(0::complex, 1::complex, 0::complex)]]" by simp
  from batch_loop_returns [OF this] obtain s where
    l: "for_loop [[(0, 1, 0)]] (batch_body sample_externals (1 / 100) 8) (epoch_start w_e) = Inr s"
    by blast
  obtain w' where u: "update_step sample_externals (1 / 100) w_e [(0, 1, 0)] 8 = Inr w'"
    by (simp add: update_step_eq)
  note t9 = weights_keys_invariant [of zero_randn sample_externals one_batch_loader "1 / 100" 8 w_e "[(0, 1, 0)]" w'
      1 w_e hist "[[(0, 1, 0)]]" s]
  from t9 t l have d: "dom (ws s) = weight_keys"
    by simp
  from t9 u have d': "dom w' = dom w_e"
    by simp
  show ?thesis
    by (rule exI [of _ w_e], rule exI [of _ hist], rule exI [of _ s], rule exI [of _ w'])
      (simp only: t l d u d' simp_thms)
qed

lemma compute_loss_batch_error: "compute_loss_batch E w batch beta = Inl e \<Longrightarrow> e = NotANumber"
  by (cases "batch = []") (simp_all add: compute_loss_batch_empty compute_loss_batch_nonempty)

lemma update_step_error: "update_step E lr w batch beta = Inl e \<Longrightarrow> e = NotANumber"
  by (simp add: update_step_eq)

lemma batch_body_error: "batch_body E lr beta batch s = Inl e \<Longrightarrow> e = NotANumber"
  by (auto simp add: batch_body_def split: sum.splits prod.splits
      dest: compute_loss_batch_error update_step_error)

lemma batch_loop_error:
  "for_loop batches (batch_body E lr beta) s = Inl e \<Longrightarrow> e = NotANumber"
proof (induction batches arbitrary: s)
  case Nil
  then show ?case by simp
next
  case (Cons b bs)
  then show ?case by (auto split: sum.splits dest: batch_body_error)
qed

lemma train_no_division_by_zero:
  "(\<And>e. e < n \<Longrightarrow> dl e \<noteq> []) \<Longrightarrow> train E randn dl n lr beta \<noteq> Inl ZeroDivisionError"
proof (induction n)
  case 0
  show ?case by (simp add: train_0)
next
  case (Suc n)
  from Suc.IH Suc.prems have prev: "train E randn dl n lr beta \<noteq> Inl ZeroDivisionError" by simp
  from Suc.prems [of n] have ne: "dl n \<noteq> []" by simp
  show ?case
  proof
    assume bad: "train E randn dl (Suc n) lr beta = Inl ZeroDivisionError"
    with prev obtain w lh clh fah fbh where
      t: "train E randn dl n lr beta = Inr (w, lh, clh, fah, fbh)"
      by (auto simp add: train_Suc split: sum.splits)
    show False
    proof (cases "for_loop (dl n) (batch_body E lr beta) (epoch_start w)")
      case (Inl e)
      with batch_loop_error [OF Inl] bad t show False by (simp add: train_Suc)
    next
      case (Inr s)
      from batch_loop_count [OF Inr] ne have "num_batches s \<noteq> 0" by simp
      with Inr bad t show False by (simp add: train_Suc)
    qed
  qed
qed

lemma train_no_batches:
  "dl 0 = [] \<Longrightarrow> train E randn dl (Suc n) lr beta = Inl ZeroDivisionError"
  by (induction n) (simp_all add: train_Suc [of _ _ _ "Suc _"] train_Suc [of _ _ _ 0] train_0 epoch_start_def)

text \<open>
  C10, as stated, fails for a run of no epochs: \<open>train\<close> with \<open>num_epochs = 0\<close>
  never reaches a division, and returns the initial weights and empty histories also
  when the dataloader yields no batch.
\<close>

theorem train_division_counterexample:
  "train sample_externals zero_randn empty_loader 0 (1 / 100) 1
     = Inr (init_weights zero_randn, [], [], [], [])
   \<and> train sample_externals zero_randn empty_loader 0 (1 / 100) 1 \<noteq> Inl ZeroDivisionError"
  by (simp add: train_0)

text \<open>
  C10, amended. When the dataloader yields at least one batch in every epoch, \<open>train\<close>
  does not fail with a division by zero. When there is at least one epoch and the
  dataloader yields no batch in the first one, \<open>train\<close> fails at the division.
\<close>

theorem train_division:
  "((\<forall>e<num_epochs. dl e \<noteq> []) \<longrightarrow> train E randn dl num_epochs lr beta \<noteq> Inl ZeroDivisionError)
   \<and> (0 < num_epochs' \<longrightarrow> dl' 0 = [] \<longrightarrow>
        train E randn dl' num_epochs' lr beta = Inl ZeroDivisionError)"
proof (intro conjI impI)
  assume "\<forall>e<num_epochs. dl e \<noteq> []"
  then show "train E randn dl num_epochs lr beta \<noteq> Inl ZeroDivisionError"
    by (intro train_no_division_by_zero) blast
next
  assume "0 < num_epochs'" and e: "dl' 0 = []"
  then obtain n where "num_epochs' = Suc n" by (cases num_epochs') auto
  with train_no_batches [of dl', OF e] show "train E randn dl' num_epochs' lr beta = Inl ZeroDivisionError"
    by simp
qed

theorem train_division_witness:
  "train sample_externals zero_randn one_batch_loader 3 (1 / 100) 1 \<noteq> Inl ZeroDivisionError
   \<and> train sample_externals zero_randn empty_loader 3 (1 / 100) 1 = Inl ZeroDivisionError"
  using train_division [of 3 one_batch_loader sample_externals zero_randn "1 / 100" 1 3 empty_loader]
  by (simp add: one_batch_loader_def empty_loader_def)

end
